theory Spec2Isabelle
  imports Main "HOL-Library.AList" "HOL-Library.Word"
begin

unbundle bit_operations_syntax

section \<open>Python strings\<close>

text \<open>
  A Python \<open>str\<close> is modelled as a \<open>string\<close>, every \<open>char\<close> standing for one code point
  below 256 (the Latin-1 range), so that \<open>length\<close> is Python's \<open>len\<close> on such text.
  The code points of that range for which \<open>str.isspace\<close> holds are 9 to 13, 28 to 32,
  133 and 160; \<open>str.strip()\<close> and \<open>str.split()\<close> use the same set.
\<close>

definition isspace :: "char \<Rightarrow> bool" where
  "isspace c = (let n = (of_char c :: nat)
                in (9 \<le> n \<and> n \<le> 13) \<or> (28 \<le> n \<and> n \<le> 32) \<or> n = 133 \<or> n = 160)"

definition strip :: "string \<Rightarrow> string" where
  \<comment> \<open>\<open>s.strip()\<close>\<close>
  "strip s = rev (dropWhile isspace (rev (dropWhile isspace s)))"

fun split_ws_from :: "string \<Rightarrow> string \<Rightarrow> string list" where
  \<comment> \<open>the first argument is the word read so far, reversed\<close>
  "split_ws_from w [] = (if w = [] then [] else [rev w])"
| "split_ws_from w (c # cs) =
     (if isspace c then (if w = [] then split_ws_from [] cs else rev w # split_ws_from [] cs)
      else split_ws_from (c # w) cs)"

definition split_ws :: "string \<Rightarrow> string list" where
  \<comment> \<open>\<open>s.split()\<close>: the maximal runs of non-whitespace\<close>
  "split_ws s = split_ws_from [] s"

fun split_on :: "char \<Rightarrow> string \<Rightarrow> string list" where
  \<comment> \<open>\<open>s.split(c)\<close> for a separator of one character\<close>
  "split_on sep [] = [[]]"
| "split_on sep (c # cs) =
     (if c = sep then [] # split_on sep cs
      else (case split_on sep cs of [] \<Rightarrow> [[c]] | w # ws \<Rightarrow> (c # w) # ws))"

fun join :: "string \<Rightarrow> string list \<Rightarrow> string" where
  \<comment> \<open>\<open>sep.join(xs)\<close>\<close>
  "join sep [] = []"
| "join sep [x] = x"
| "join sep (x # y # ys) = x @ sep @ join sep (y # ys)"

definition startswith :: "string \<Rightarrow> string \<Rightarrow> bool" where
  \<comment> \<open>\<open>s.startswith(p)\<close>\<close>
  "startswith s p = (take (length p) s = p)"

function replace :: "string \<Rightarrow> string \<Rightarrow> string \<Rightarrow> string" where
  \<comment> \<open>\<open>s.replace(old, new)\<close> for a non-empty \<open>old\<close>: every occurrence, left to right,
      without overlap\<close>
  "replace old new [] = []"
| "replace old new (c # cs) =
     (if old \<noteq> [] \<and> startswith (c # cs) old
      then new @ replace old new (drop (length old) (c # cs))
      else c # replace old new cs)"
  by pat_completeness auto
termination
  by (relation "measure (\<lambda>(old, new, s). length s)") (auto simp: startswith_def)

section \<open>The response parser (ai_developer.py)\<close>

text \<open>
  The dictionary \<open>files\<close> is an association list in insertion order: \<open>AList.update\<close>
  replaces the value of a key that is present, where it stands, and appends a new key,
  as the assignment \<open>files[k] = v\<close> does on a Python \<open>dict\<close>.
\<close>

type_synonym files = "(string \<times> string) list"

record parser_state =
  files :: files
  current_file :: "string option"
  current_content :: "string list"
  in_file :: bool

definition initial_state :: parser_state where
  "initial_state = \<lparr>files = [], current_file = None, current_content = [], in_file = False\<rparr>"

definition truthy :: "string option \<Rightarrow> bool" where
  \<comment> \<open>Python's truth value of a value that is \<open>None\<close> or a \<open>str\<close>\<close>
  "truthy v = (case v of None \<Rightarrow> False | Some s \<Rightarrow> s \<noteq> [])"

definition is_start :: "string \<Rightarrow> bool" where
  "is_start line = startswith line ''=== FILE:''"

definition is_end :: "string \<Rightarrow> bool" where
  "is_end line = startswith line ''=== END FILE''"

definition filename_of :: "string \<Rightarrow> string" where
  \<comment> \<open>\<open>line.replace('=== FILE:', '').strip()\<close>\<close>
  "filename_of line = strip (replace ''=== FILE:'' [] line)"

definition parse_line :: "parser_state \<Rightarrow> string \<Rightarrow> parser_state" where
  \<comment> \<open>the body of the \<open>for line in lines\<close> loop\<close>
  "parse_line st line =
     (if is_start line then
        st\<lparr>current_file := Some (filename_of line), current_content := [], in_file := True\<rparr>
      else if is_end line then
        (if truthy (current_file st) then
           st\<lparr>files := AList.update (the (current_file st))
                           (join ''\<newline>'' (current_content st)) (files st),
              current_file := None, current_content := [], in_file := False\<rparr>
         else st\<lparr>in_file := False\<rparr>)
      else if in_file st then st\<lparr>current_content := current_content st @ [line]\<rparr>
      else st)"

definition scan :: "string list \<Rightarrow> parser_state" where
  "scan lines = foldl parse_line initial_state lines"

definition default_target :: string where
  "default_target = ''voice_to_obsidian.py''"

definition parse_claude_response :: "string \<Rightarrow> files" where
  "parse_claude_response response_text =
     (let fs = files (scan (split_on CHR ''\<newline>'' response_text))
      in if fs = [] \<and> strip response_text \<noteq> []
         then AList.update default_target (strip response_text) fs
         else fs)"

text \<open>Two notions for the properties below.\<close>

primrec marker_free :: "string list \<Rightarrow> bool" where
  \<comment> \<open>no line is a start marker or an end marker\<close>
  "marker_free [] = True"
| "marker_free (l # ls) = (\<not> is_start l \<and> \<not> is_end l \<and> marker_free ls)"

definition consistent :: "parser_state \<Rightarrow> bool" where
  \<comment> \<open>a recorded, non-empty file name only occurs inside a block\<close>
  "consistent st = (in_file st \<or> \<not> truthy (current_file st))"

section \<open>Numbers as text\<close>

definition isdigit :: "char \<Rightarrow> bool" where
  "isdigit c = (48 \<le> (of_char c :: nat) \<and> (of_char c :: nat) \<le> 57)"

definition digit_char :: "nat \<Rightarrow> char" where
  \<comment> \<open>the character of a digit below ten\<close>
  "digit_char d = ''0123456789'' ! d"

function show_nat :: "nat \<Rightarrow> string" where
  \<comment> \<open>\<open>str(n)\<close> for \<open>n \<ge> 0\<close>\<close>
  "show_nat n = (if n < 10 then [digit_char n]
                 else show_nat (n div 10) @ [digit_char (n mod 10)])"
  by pat_completeness auto
termination
  by (relation "measure id") auto

declare show_nat.simps [simp del]

definition show_int :: "int \<Rightarrow> string" where
  \<comment> \<open>\<open>str(i)\<close>, as the f-string \<open>{count}\<close> formats it\<close>
  "show_int i = (if i < 0 then CHR ''-'' # show_nat (nat (- i)) else show_nat (nat i))"

fun digits_value :: "nat \<Rightarrow> bool \<Rightarrow> string \<Rightarrow> nat option" where
  \<comment> \<open>decimal digits, single underscores allowed between two digits; the flag says
      that the previous character was a digit\<close>
  "digits_value acc prev [] = (if prev then Some acc else None)"
| "digits_value acc prev (c # cs) =
     (if isdigit c then digits_value (acc * 10 + (of_char c - 48)) True cs
      else if c = CHR ''_'' \<and> prev then digits_value acc False cs
      else None)"

definition decimal :: "nat \<Rightarrow> string \<Rightarrow> nat" where
  \<comment> \<open>the value of a string of digits, continuing from \<open>acc\<close>\<close>
  "decimal = foldl (\<lambda>acc c. acc * 10 + (of_char c - 48))"

definition int_isspace :: "char \<Rightarrow> bool" where
  \<comment> \<open>the whitespace that \<open>int()\<close> skips at both ends of a \<open>str\<close>: unlike
      \<open>str.strip()\<close> it does not skip the code points 28 to 31\<close>
  "int_isspace c = (let n = (of_char c :: nat)
                    in (9 \<le> n \<and> n \<le> 13) \<or> n = 32 \<or> n = 133 \<or> n = 160)"

definition int_strip :: "string \<Rightarrow> string" where
  "int_strip s = rev (dropWhile int_isspace (rev (dropWhile int_isspace s)))"

definition py_int :: "string \<Rightarrow> int option" where
  \<comment> \<open>\<open>int(s)\<close>; \<open>None\<close> stands for the ValueError\<close>
  "py_int s =
     (case int_strip s of
        [] \<Rightarrow> None
      | c # cs \<Rightarrow>
          if c = CHR ''-'' then map_option (\<lambda>n. - int n) (digits_value 0 False cs)
          else if c = CHR ''+'' then map_option int (digits_value 0 False cs)
          else map_option int (digits_value 0 False (c # cs)))"

section \<open>The clock\<close>

text \<open>
  One reading of \<open>datetime.now()\<close>. The formats are those of the C locale;
  \<open>%Y\<close> is padded to four digits.
\<close>

record datetime =
  year :: nat
  month :: nat
  day :: nat
  hour :: nat
  minute :: nat

definition zfill :: "nat \<Rightarrow> string \<Rightarrow> string" where
  "zfill w s = replicate (w - length s) CHR ''0'' @ s"

definition strftime_Ymd :: "datetime \<Rightarrow> string" where
  \<comment> \<open>\<open>strftime("%Y-%m-%d")\<close>\<close>
  "strftime_Ymd now = zfill 4 (show_nat (year now)) @ ''-'' @ zfill 2 (show_nat (month now))
                      @ ''-'' @ zfill 2 (show_nat (day now))"

definition strftime_IMp :: "datetime \<Rightarrow> string" where
  \<comment> \<open>\<open>strftime("%I:%M %p")\<close>\<close>
  "strftime_IMp now =
     zfill 2 (show_nat (if hour now mod 12 = 0 then 12 else hour now mod 12)) @ '':''
     @ zfill 2 (show_nat (minute now)) @ '' '' @ (if hour now < 12 then ''AM'' else ''PM'')"

definition month_name :: "nat \<Rightarrow> string" where
  "month_name m =
     (if 1 \<le> m \<and> m \<le> 12
      then [''January'', ''February'', ''March'', ''April'', ''May'', ''June'', ''July'',
            ''August'', ''September'', ''October'', ''November'', ''December''] ! (m - 1)
      else [])"

definition strftime_BdY :: "datetime \<Rightarrow> string" where
  \<comment> \<open>\<open>strftime('%B %d, %Y')\<close>\<close>
  "strftime_BdY now = month_name (month now) @ '' '' @ zfill 2 (show_nat (day now)) @ '', ''
                      @ zfill 4 (show_nat (year now))"

section \<open>JSON values, errors and console output\<close>

text \<open>
  What \<open>request.json\<close> can hold. An object is the list of its items in order, each key
  once; the numbers of the events are integers.
\<close>

datatype json = JNull | JBool bool | JNum int | JStr string | JArr "json list"
  | JObj "(string \<times> json) list"

datatype py_error = ValueError | TypeError | AttributeError | RequestException
  | BadRequest | UnsupportedMediaType

text \<open>One constructor for each \<open>print\<close> of the parts modelled, with the values it formats.\<close>

datatype console = Text_too_long nat nat | Note_saved string | Triggering json
  | Workflow_triggered | Workflow_failed nat

section \<open>The clipboard pipeline (voice-to-obsidian.py)\<close>

definition MIN_WORDS :: nat where "MIN_WORDS = 5"
definition MAX_CHARS :: nat where "MAX_CHARS = 5000"
definition DAILY_LIMIT :: int where "DAILY_LIMIT = 100"

text \<open>
  The counter file \<open>.automation_count.txt\<close> is \<open>None\<close> when it does not exist and
  \<open>Some\<close> of its content otherwise.
\<close>

definition check_daily_limit :: "datetime \<Rightarrow> string option \<Rightarrow> py_error + bool \<times> string option" where
  \<comment> \<open>the result is the answer and the counter file after the call; the ValueError of
      \<open>int(count)\<close> is raised before anything is written\<close>
  "check_daily_limit now file =
     (let today = strftime_Ymd now;
          reset = Inr (True, Some (today @ '',0''))
      in case file of
           None \<Rightarrow> reset
         | Some content \<Rightarrow>
             (case split_on CHR '','' (strip content) of
                [date, count] \<Rightarrow>
                  if date = today
                  then (case py_int count of
                          None \<Rightarrow> Inl ValueError
                        | Some c \<Rightarrow> Inr (c < DAILY_LIMIT, file))
                  else reset
              | _ \<Rightarrow> reset))"

definition increment_daily_count :: "datetime \<Rightarrow> string option \<Rightarrow> py_error + string option" where
  \<comment> \<open>the result is the counter file after the call; a raise leaves the file as it was\<close>
  "increment_daily_count now file =
     (let today = strftime_Ymd now;
          write = (\<lambda>count. Inr (Some (today @ '','' @ show_int count)))
      in case file of
           None \<Rightarrow> write 1
         | Some content \<Rightarrow>
             (case split_on CHR '','' (strip content) of
                [date, count] \<Rightarrow>
                  if date = today
                  then (case py_int count of
                          None \<Rightarrow> Inl ValueError
                        | Some c \<Rightarrow> write (c + 1))
                  else write 1
              | _ \<Rightarrow> write 1))"

fun increment_each :: "datetime list \<Rightarrow> string option \<Rightarrow> py_error + string option" where
  \<comment> \<open>one call of \<open>increment_daily_count\<close> at each of the given clock readings\<close>
  "increment_each [] file = Inr file"
| "increment_each (now # nows) file =
     (case increment_daily_count now file of
        Inl e \<Rightarrow> Inl e
      | Inr file' \<Rightarrow> increment_each nows file')"

definition same_date :: "datetime \<Rightarrow> datetime \<Rightarrow> bool" where
  "same_date a b = (year a = year b \<and> month a = month b \<and> day a = day b)"

text \<open>
  The vault is a map from the name of a file in \<open>OBSIDIAN_VAULT_PATH\<close> to its content.
  The calls of \<open>datetime.now()\<close> within one call of \<open>save_to_obsidian\<close> are one reading.
\<close>

type_synonym vault = "string \<rightharpoonup> string"

definition note_file :: "datetime \<Rightarrow> string" where
  "note_file now = strftime_Ymd now @ ''.md''"

definition section_text :: "datetime \<Rightarrow> string \<Rightarrow> string" where
  \<comment> \<open>what one call appends: the time-stamped subheading and the note\<close>
  "section_text now note = ''\<newline>\<newline>## '' @ strftime_IMp now @ ''\<newline>\<newline>'' @ note"

definition note_start :: "vault \<Rightarrow> datetime \<Rightarrow> string" where
  \<comment> \<open>what a section is appended to: the content of the daily note, or the date heading
      of a new one\<close>
  "note_start fs now =
     (case fs (note_file now) of None \<Rightarrow> ''# '' @ strftime_BdY now | Some old \<Rightarrow> old)"

definition save_to_obsidian :: "datetime \<Rightarrow> string \<Rightarrow> vault \<Rightarrow> vault \<times> console list" where
  "save_to_obsidian now formatted_note fs =
     (let current_time = strftime_IMp now
      in (case fs (note_file now) of
            Some old \<Rightarrow>
              fs(note_file now \<mapsto> old @ ''\<newline>\<newline>## '' @ current_time @ ''\<newline>\<newline>'' @ formatted_note)
          | None \<Rightarrow>
              fs(note_file now \<mapsto> ''# '' @ strftime_BdY now @ ''\<newline>\<newline>## '' @ current_time
                                    @ ''\<newline>\<newline>'' @ formatted_note),
          [Note_saved (note_file now)]))"

definition is_valid_transcription :: "string \<Rightarrow> bool \<times> console list" where
  "is_valid_transcription text =
     (if text = [] \<or> length text < 10 then (False, [])
      else let word_count = length (split_ws text)
           in if word_count < MIN_WORDS then (False, [])
              else if length text > MAX_CHARS then (True, [Text_too_long (length text) MAX_CHARS])
              else (True, []))"

section \<open>HMAC-SHA256 (hashlib, hmac)\<close>

type_synonym byte = "8 word"

text \<open>
  The round constants are the first 32 bits of the fractional parts of the cube roots of
  the first 64 primes, the initial hash value those of the square roots of the first 8.
\<close>

definition sha256_k :: "32 word list" where
  "sha256_k =
    [1116352408, 1899447441, 3049323471, 3921009573, 961987163, 1508970993,
     2453635748, 2870763221, 3624381080, 310598401, 607225278, 1426881987,
     1925078388, 2162078206, 2614888103, 3248222580, 3835390401, 4022224774,
     264347078, 604807628, 770255983, 1249150122, 1555081692, 1996064986,
     2554220882, 2821834349, 2952996808, 3210313671, 3336571891, 3584528711,
     113926993, 338241895, 666307205, 773529912, 1294757372, 1396182291,
     1695183700, 1986661051, 2177026350, 2456956037, 2730485921, 2820302411,
     3259730800, 3345764771, 3516065817, 3600352804, 4094571909, 275423344,
     430227734, 506948616, 659060556, 883997877, 958139571, 1322822218,
     1537002063, 1747873779, 1955562222, 2024104815, 2227730452, 2361852424,
     2428436474, 2756734187, 3204031479, 3329325298]"

definition sha256_h0 ::
  "32 word \<times> 32 word \<times> 32 word \<times> 32 word \<times> 32 word \<times> 32 word \<times> 32 word \<times> 32 word" where
  "sha256_h0 = (1779033703, 3144134277, 1013904242, 2773480762,
                1359893119, 2600822924, 528734635, 1541459225)"

definition rotr :: "nat \<Rightarrow> 32 word \<Rightarrow> 32 word" where
  "rotr n x = drop_bit n x OR push_bit (32 - n) x"

definition be_word :: "byte list \<Rightarrow> 32 word" where
  "be_word bs = foldl (\<lambda>acc b. push_bit 8 acc OR ucast b) 0 bs"

definition word_bytes :: "32 word \<Rightarrow> byte list" where
  "word_bytes w = map (\<lambda>n. ucast (drop_bit n w)) [24, 16, 8, 0]"

definition length_bytes :: "nat \<Rightarrow> byte list" where
  \<comment> \<open>the length of the message in bits, as 64 bits, most significant byte first\<close>
  "length_bytes len = map (\<lambda>n. ucast (drop_bit n (of_nat (8 * len) :: 64 word)))
                          [56, 48, 40, 32, 24, 16, 8, 0]"

fun chunks :: "nat \<Rightarrow> 'a list \<Rightarrow> 'a list list" where
  "chunks 0 xs = []"
| "chunks (Suc n) xs = (if xs = [] then [] else take (Suc n) xs # chunks (Suc n) (drop (Suc n) xs))"

definition sha256_pad :: "byte list \<Rightarrow> byte list" where
  "sha256_pad m = m @ [0x80] @ replicate ((119 - length m mod 64) mod 64) 0
                    @ length_bytes (length m)"

fun schedule :: "nat \<Rightarrow> 32 word list \<Rightarrow> 32 word list" where
  "schedule 0 w = w"
| "schedule (Suc n) w =
     (let t = length w;
          x = w ! (t - 15); y = w ! (t - 2);
          s0 = rotr 7 x XOR rotr 18 x XOR drop_bit 3 x;
          s1 = rotr 17 y XOR rotr 19 y XOR drop_bit 10 y
      in schedule n (w @ [w ! (t - 16) + s0 + w ! (t - 7) + s1]))"

type_synonym sha_state =
  "32 word \<times> 32 word \<times> 32 word \<times> 32 word \<times> 32 word \<times> 32 word \<times> 32 word \<times> 32 word"

fun sha256_round :: "sha_state \<Rightarrow> 32 word \<times> 32 word \<Rightarrow> sha_state" where
  "sha256_round (a, b, c, d, e, f, g, h) (k, w) =
     (let t1 = h + (rotr 6 e XOR rotr 11 e XOR rotr 25 e) + ((e AND f) XOR (NOT e AND g)) + k + w;
          t2 = (rotr 2 a XOR rotr 13 a XOR rotr 22 a) + ((a AND b) XOR (a AND c) XOR (b AND c))
      in (t1 + t2, a, b, c, d + t1, e, f, g))"

fun sha256_add :: "sha_state \<Rightarrow> sha_state \<Rightarrow> sha_state" where
  "sha256_add (a, b, c, d, e, f, g, h) (a', b', c', d', e', f', g', h') =
     (a + a', b + b', c + c', d + d', e + e', f + f', g + g', h + h')"

definition sha256_block :: "sha_state \<Rightarrow> byte list \<Rightarrow> sha_state" where
  "sha256_block hs block =
     (let w = schedule 48 (map be_word (chunks 4 block))
      in sha256_add hs (foldl sha256_round hs (zip sha256_k w)))"

fun sha256_out :: "sha_state \<Rightarrow> byte list" where
  "sha256_out (a, b, c, d, e, f, g, h) =
     concat (map word_bytes [a, b, c, d, e, f, g, h])"

definition sha256 :: "byte list \<Rightarrow> byte list" where
  "sha256 m = sha256_out (foldl sha256_block sha256_h0 (chunks 64 (sha256_pad m)))"

definition hmac_sha256 :: "byte list \<Rightarrow> byte list \<Rightarrow> byte list" where
  "hmac_sha256 key msg =
     (let k0 = (if length key > 64 then sha256 key else key);
          k = k0 @ replicate (64 - length k0) 0
      in sha256 (map (\<lambda>b. b XOR 0x5c) k @ sha256 (map (\<lambda>b. b XOR 0x36) k @ msg)))"

definition hexdigest :: "byte list \<Rightarrow> string" where
  "hexdigest bs = concat (map (\<lambda>b. [''0123456789abcdef'' ! (unat b div 16),
                                      ''0123456789abcdef'' ! (unat b mod 16)]) bs)"

definition encode :: "string \<Rightarrow> byte list" where
  \<comment> \<open>\<open>s.encode()\<close>, UTF-8, of code points below 256\<close>
  "encode s = concat (map (\<lambda>c. let n = (of_char c :: nat)
                               in if n < 128 then [of_nat n]
                                  else [of_nat (192 + n div 64), of_nat (128 + n mod 64)]) s)"

definition isascii :: "string \<Rightarrow> bool" where
  "isascii s = list_all (\<lambda>c. (of_char c :: nat) < 128) s"

definition compare_digest :: "string \<Rightarrow> string \<Rightarrow> py_error + bool" where
  \<comment> \<open>\<open>hmac.compare_digest\<close> on two \<open>str\<close>: a TypeError unless both are ASCII\<close>
  "compare_digest a b = (if isascii a \<and> isascii b then Inr (a = b) else Inl TypeError)"

section \<open>The webhook handler (linear_webhook_handler.py)\<close>

definition GITHUB_REPO :: string where "GITHUB_REPO = ''brennaman/voice-to-obsidian''"
definition TARGET_LABEL :: string where "TARGET_LABEL = ''ai-development''"

definition verify_linear_signature :: "byte list \<Rightarrow> string \<Rightarrow> string option \<Rightarrow> py_error + bool" where
  "verify_linear_signature payload signature secret =
     (if \<not> truthy secret then Inr True
      else compare_digest signature (hexdigest (hmac_sha256 (encode (the secret)) payload)))"

record environ =
  LINEAR_WEBHOOK_SECRET :: "string option"
  GITHUB_TOKEN :: "string option"

text \<open>
  A request: the \<open>Linear-Signature\<close> header, the raw body \<open>request.data\<close> and what
  \<open>request.json\<close> gives, a value or the error that Flask raises for a body that is not JSON.
\<close>

record request =
  linear_signature :: "string option"
  request_data :: "byte list"
  request_json :: "py_error + json"

record dispatch_request =
  url :: string
  headers :: "(string \<times> string) list"
  payload :: json

record http_response =
  status_code :: nat
  body_text :: string

datatype outcome = Response json nat | Raised py_error

type_synonym handled = "outcome \<times> dispatch_request list \<times> console list"

definition dict_get :: "json \<Rightarrow> string \<Rightarrow> json \<Rightarrow> py_error + json" where
  \<comment> \<open>\<open>d.get(key, default)\<close>; only a \<open>dict\<close> has the method\<close>
  "dict_get d key dflt =
     (case d of
        JObj items \<Rightarrow> Inr (case map_of items key of None \<Rightarrow> dflt | Some v \<Rightarrow> v)
      | _ \<Rightarrow> Inl AttributeError)"

fun any_label :: "json list \<Rightarrow> py_error + bool" where
  \<comment> \<open>\<open>any(label.get('name') == TARGET_LABEL for label in labels)\<close>, stopping at the
      first label that has the name\<close>
  "any_label [] = Inr False"
| "any_label (label # labels) =
     (case dict_get label ''name'' JNull of
        Inl e \<Rightarrow> Inl e
      | Inr v \<Rightarrow> if v = JStr TARGET_LABEL then Inr True else any_label labels)"

definition iterate :: "json \<Rightarrow> py_error + json list" where
  \<comment> \<open>the elements a \<open>for\<close> loop sees: of a list its items, of a dict its keys, of a
      string its characters; other values are not iterable\<close>
  "iterate v =
     (case v of
        JArr xs \<Rightarrow> Inr xs
      | JObj items \<Rightarrow> Inr (map (\<lambda>(k, _). JStr k) items)
      | JStr s \<Rightarrow> Inr (map (\<lambda>c. JStr [c]) s)
      | _ \<Rightarrow> Inl TypeError)"

definition issue_field :: "json \<Rightarrow> string \<Rightarrow> json \<Rightarrow> json" where
  \<comment> \<open>\<open>issue_data.get(key, default)\<close> once \<open>issue_data\<close> is known to be a dict\<close>
  "issue_field issue_data key dflt =
     (case dict_get issue_data key dflt of Inl _ \<Rightarrow> dflt | Inr v \<Rightarrow> v)"

definition trigger_workflow ::
  "(dispatch_request \<Rightarrow> py_error + http_response) \<Rightarrow> environ \<Rightarrow> json \<Rightarrow> handled" where
  \<comment> \<open>from \<open># Extract issue details\<close> to the end of \<open>linear_webhook\<close>\<close>
  "trigger_workflow post env issue_data =
     (let issue_id = issue_field issue_data ''id'' JNull;
          issue_title = issue_field issue_data ''title'' JNull;
          issue_description = issue_field issue_data ''description'' (JStr []);
          issue_identifier = issue_field issue_data ''identifier'' JNull;
          req = \<lparr>url = ''https://api.github.com/repos/'' @ GITHUB_REPO @ ''/dispatches'',
                 headers = [(''Accept'', ''application/vnd.github+json''),
                            (''Authorization'', ''Bearer '' @ (case GITHUB_TOKEN env of
                                                                 None \<Rightarrow> ''None'' | Some t \<Rightarrow> t)),
                            (''X-GitHub-Api-Version'', ''2022-11-28'')],
                 payload = JObj [(''event_type'', JStr ''linear_issue_labeled''),
                                 (''client_payload'',
                                  JObj [(''issue_id'', issue_id),
                                        (''issue_title'', issue_title),
                                        (''issue_description'', issue_description),
                                        (''issue_identifier'', issue_identifier)])]\<rparr>
      in case post req of
           Inl e \<Rightarrow> (Raised e, [req], [Triggering issue_identifier])
         | Inr response \<Rightarrow>
             if status_code response = 204
             then (Response (JObj [(''message'', JStr ''Workflow triggered successfully'')]) 200,
                   [req], [Triggering issue_identifier, Workflow_triggered])
             else (Response (JObj [(''error'', JStr ''Failed to trigger workflow''),
                                   (''details'', JStr (body_text response))]) 500,
                   [req], [Triggering issue_identifier, Workflow_failed (status_code response)]))"

definition ignored :: "string \<Rightarrow> handled" where
  "ignored message = (Response (JObj [(''message'', JStr message)]) 200, [], [])"

definition raised :: "py_error \<Rightarrow> handled" where
  "raised e = (Raised e, [], [])"

definition handle_event ::
  "(dispatch_request \<Rightarrow> py_error + http_response) \<Rightarrow> environ \<Rightarrow> request \<Rightarrow> handled" where
  \<comment> \<open>\<open>linear_webhook\<close> from \<open>data = request.json\<close> on\<close>
  "handle_event post env req =
     (case request_json req of
        Inl e \<Rightarrow> raised e
      | Inr data \<Rightarrow>
     (case dict_get data ''type'' JNull of
        Inl e \<Rightarrow> raised e
      | Inr ty \<Rightarrow>
     (case dict_get data ''action'' JNull of
        Inl e \<Rightarrow> raised e
      | Inr action \<Rightarrow>
          if ty \<noteq> JStr ''Issue'' \<or> action \<noteq> JStr ''update''
          then ignored ''Ignored - not an issue update''
          else
     (case dict_get data ''data'' (JObj []) of
        Inl e \<Rightarrow> raised e
      | Inr issue_data \<Rightarrow>
     (case dict_get issue_data ''labels'' (JArr []) of
        Inl e \<Rightarrow> raised e
      | Inr labels \<Rightarrow>
     (case iterate labels of
        Inl e \<Rightarrow> raised e
      | Inr ls \<Rightarrow>
     (case any_label ls of
        Inl e \<Rightarrow> raised e
      | Inr has_target_label \<Rightarrow>
          if \<not> has_target_label
          then ignored (''Ignored - no '' @ [CHR 0x27] @ TARGET_LABEL @ [CHR 0x27] @ '' label'')
          else trigger_workflow post env issue_data)))))))"

definition linear_webhook ::
  "(dispatch_request \<Rightarrow> py_error + http_response) \<Rightarrow> environ \<Rightarrow> request \<Rightarrow> handled" where
  "linear_webhook post env req =
     (let signature = linear_signature req;
          webhook_secret = LINEAR_WEBHOOK_SECRET env
      in if truthy webhook_secret \<and> truthy signature
         then (case verify_linear_signature (request_data req) (the signature) webhook_secret of
                 Inl e \<Rightarrow> raised e
               | Inr ok \<Rightarrow>
                   if \<not> ok then (Response (JObj [(''error'', JStr ''Invalid signature'')]) 401, [], [])
                   else handle_event post env req)
         else handle_event post env req)"

fun status_of :: "outcome \<Rightarrow> nat option" where
  \<comment> \<open>the HTTP status of the reply, if the handler returns one\<close>
  "status_of (Response _ s) = Some s"
| "status_of (Raised _) = None"

definition always_respond :: "http_response \<Rightarrow> dispatch_request \<Rightarrow> py_error + http_response" where
  \<comment> \<open>a dispatch endpoint that answers every request with the same response\<close>
  "always_respond r q = Inr r"

section \<open>Properties of the string operations\<close>

lemma split_on_no_sep: "c \<notin> set s \<Longrightarrow> split_on c s = [s]"
  by (induction s) auto

lemma split_on_append: "c \<notin> set l \<Longrightarrow> split_on c (l @ c # r) = l # split_on c r"
  by (induction l) (auto split: list.splits)

lemma split_on_join:
  "ls \<noteq> [] \<Longrightarrow> \<forall>l\<in>set ls. c \<notin> set l \<Longrightarrow> split_on c (join [c] ls) = ls"
  by (induction "[c]" ls rule: join.induct) (auto simp: split_on_no_sep split_on_append)

lemma dropWhile_hd: "xs \<noteq> [] \<Longrightarrow> \<not> P (hd xs) \<Longrightarrow> dropWhile P xs = xs"
  by (cases xs) auto

lemma strip_id: "s \<noteq> [] \<Longrightarrow> \<not> isspace (hd s) \<Longrightarrow> \<not> isspace (last s) \<Longrightarrow> strip s = s"
  by (simp add: strip_def dropWhile_hd hd_rev)

section \<open>Properties of the response parser\<close>

lemma is_end_not_start: "is_end l \<Longrightarrow> \<not> is_start l"
proof
  assume e: "is_end l" and s: "is_start l"
  have "take (length ''=== FILE:'') l
        = take (length ''=== FILE:'') (take (length ''=== END FILE'') l)" by simp
  also have "take (length ''=== END FILE'') l = ''=== END FILE''"
    using e unfolding is_end_def startswith_def .
  finally have "take (length ''=== FILE:'') l = ''=== END F''" by simp
  moreover have "take (length ''=== FILE:'') l = ''=== FILE:''"
    using s unfolding is_start_def startswith_def .
  ultimately show False by simp
qed

lemma foldl_marker_free_out:
  "marker_free ls \<Longrightarrow> \<not> in_file st \<Longrightarrow> foldl parse_line st ls = st"
  by (induction ls arbitrary: st) (auto simp: parse_line_def)

lemma foldl_marker_free_in:
  "marker_free ls \<Longrightarrow> in_file st \<Longrightarrow>
   foldl parse_line st ls = st\<lparr>current_content := current_content st @ ls\<rparr>"
  by (induction ls arbitrary: st) (auto simp: parse_line_def)

lemma scan_marker_free: "marker_free ls \<Longrightarrow> scan ls = initial_state"
  unfolding scan_def by (rule foldl_marker_free_out) (simp_all add: initial_state_def)

lemma consistent_parse_line: "consistent st \<Longrightarrow> consistent (parse_line st l)"
  by (auto simp: consistent_def parse_line_def truthy_def)

lemma consistent_foldl: "consistent st \<Longrightarrow> consistent (foldl parse_line st ls)"
  by (induction ls arbitrary: st) (auto simp: consistent_parse_line)

lemma consistent_scan: "consistent (scan ls)"
  unfolding scan_def
  by (rule consistent_foldl) (simp add: consistent_def initial_state_def truthy_def)

lemma scan_append: "scan (xs @ ys) = foldl parse_line (scan xs) ys"
  by (simp add: scan_def)

lemma scan_drop_end:
  assumes "is_end e" "\<not> in_file (scan pre)"
  shows "scan (pre @ e # post) = scan (pre @ post)"
proof -
  have "\<not> truthy (current_file (scan pre))"
    using assms(2) consistent_scan [of pre] by (simp add: consistent_def)
  then have "parse_line (scan pre) e = scan pre"
    using assms by (simp add: parse_line_def is_end_not_start)
  then show ?thesis by (simp add: scan_append)
qed

lemma foldl_block:
  assumes "is_start s" "filename_of s = name" "name \<noteq> []" "marker_free body" "is_end e"
  shows "foldl parse_line st (s # body @ [e])
         = st\<lparr>files := AList.update name (join ''\<newline>'' body) (files st),
               current_file := None, current_content := [], in_file := False\<rparr>"
proof -
  let ?st1 = "st\<lparr>current_file := Some name, current_content := [], in_file := True\<rparr>"
  have 1: "parse_line st s = ?st1"
    using assms(1,2) by (simp add: parse_line_def)
  have 2: "foldl parse_line ?st1 body = ?st1\<lparr>current_content := body\<rparr>"
    using foldl_marker_free_in [OF assms(4), of ?st1] by simp
  have 3: "parse_line (?st1\<lparr>current_content := body\<rparr>) e
           = st\<lparr>files := AList.update name (join ''\<newline>'' body) (files st),
               current_file := None, current_content := [], in_file := False\<rparr>"
    using assms(3,5) by (simp add: parse_line_def is_end_not_start truthy_def)
  have "foldl parse_line st (s # body @ [e])
        = parse_line (foldl parse_line (parse_line st s) body) e" by simp
  also have "\<dots> = parse_line (?st1\<lparr>current_content := body\<rparr>) e" by (simp only: 1 2)
  finally show ?thesis by (simp only: 3)
qed

lemma parse_line_keeps:
  assumes "map_of (files st) name = Some v" "current_file st \<noteq> Some name"
    "is_start l \<longrightarrow> filename_of l \<noteq> name"
  shows "map_of (files (parse_line st l)) name = Some v \<and>
         current_file (parse_line st l) \<noteq> Some name"
  using assms by (auto simp: parse_line_def update_conv' truthy_def split: option.splits)

lemma foldl_keeps:
  "map_of (files st) name = Some v \<Longrightarrow> current_file st \<noteq> Some name \<Longrightarrow>
   \<forall>l\<in>set ls. is_start l \<longrightarrow> filename_of l \<noteq> name \<Longrightarrow>
   map_of (files (foldl parse_line st ls)) name = Some v"
proof (induction ls arbitrary: st)
  case Nil
  then show ?case by simp
next
  case (Cons l ls)
  have "map_of (files (parse_line st l)) name = Some v \<and>
        current_file (parse_line st l) \<noteq> Some name"
    using Cons.prems by (intro parse_line_keeps) auto
  then show ?case using Cons.IH [of "parse_line st l"] Cons.prems(3) by simp
qed

lemma scan_last_block:
  assumes "is_start s" "filename_of s = name" "name \<noteq> []" "marker_free body" "is_end e"
    "\<forall>l\<in>set post. is_start l \<longrightarrow> filename_of l \<noteq> name"
  shows "map_of (files (scan (before @ s # body @ [e] @ post))) name = Some (join ''\<newline>'' body)"
proof -
  let ?st = "foldl parse_line (scan before) (s # body @ [e])"
  have st: "?st = (scan before)\<lparr>files := AList.update name (join ''\<newline>'' body) (files (scan before)),
               current_file := None, current_content := [], in_file := False\<rparr>"
    using assms(1-5) by (rule foldl_block)
  have "map_of (files ?st) name = Some (join ''\<newline>'' body)" "current_file ?st \<noteq> Some name"
    by (simp_all only: st) (simp_all add: update_conv')
  then have "map_of (files (foldl parse_line ?st post)) name = Some (join ''\<newline>'' body)"
    using assms(6) by (rule foldl_keeps)
  moreover have "scan (before @ s # body @ [e] @ post) = foldl parse_line ?st post"
    by (simp add: scan_def)
  ultimately show ?thesis by simp
qed

lemma distinct_parse_line:
  "distinct (map fst (files st)) \<Longrightarrow> distinct (map fst (files (parse_line st l)))"
  by (simp add: parse_line_def distinct_update)

lemma distinct_foldl:
  "distinct (map fst (files st)) \<Longrightarrow> distinct (map fst (files (foldl parse_line st ls)))"
  by (induction ls arbitrary: st) (simp_all add: distinct_parse_line)

lemma distinct_parse: "distinct (map fst (parse_claude_response t))"
proof -
  have "distinct (map fst (files (scan ls)))" for ls
    unfolding scan_def by (rule distinct_foldl) (simp add: initial_state_def)
  then show ?thesis
    by (simp add: parse_claude_response_def Let_def distinct_update)
qed

text \<open>
  C3, as the code has it. A response none of whose lines is a start or an end marker gives
  one entry, the default target file, whose content is the response with the whitespace at
  both ends removed; when nothing but whitespace is left, the result has no entry.
\<close>

theorem parse_no_markers:
  "marker_free (split_on CHR ''\<newline>'' t) \<Longrightarrow>
   parse_claude_response t = (if strip t = [] then [] else [(default_target, strip t)])"
  by (simp add: parse_claude_response_def scan_marker_free initial_state_def)

theorem parse_no_markers_witness:
  "marker_free (split_on CHR ''\<newline>'' ''  print(1)\<newline>'') \<and>
   parse_claude_response ''  print(1)\<newline>'' = [(''voice_to_obsidian.py'', ''print(1)'')]"
  using parse_no_markers [of "''  print(1)\<newline>''"]
  by (simp add: is_start_def is_end_def startswith_def strip_def isspace_def default_target_def)

text \<open>
  C3 as stated fails: the content stored for \<open>'' x''\<close> is not the full text, and the
  non-empty response of one space gives no entry at all.
\<close>

theorem parse_no_markers_full_text_counterexample:
  "'' x'' \<noteq> [] \<and> marker_free (split_on CHR ''\<newline>'' '' x'') \<and>
   parse_claude_response '' x'' \<noteq> [(default_target, '' x'')] \<and>
   '' '' \<noteq> [] \<and> marker_free (split_on CHR ''\<newline>'' '' '') \<and>
   parse_claude_response '' '' = []"
  by (simp add: parse_claude_response_def scan_def parse_line_def initial_state_def
      is_start_def is_end_def startswith_def strip_def isspace_def default_target_def)

text \<open>
  Last write wins on the recorded name. In a response with two complete blocks whose start
  markers record the same non-empty file name, and no later start marker for that name, the
  result binds the recorded name to the content of the second block alone, and holds the
  name once.
\<close>

lemma recorded_name_last_block_wins:
  assumes "is_start s1" "filename_of s1 = name" "marker_free body1" "is_end e1"
    and "is_start s2" "filename_of s2 = name" "marker_free body2" "is_end e2"
    and "name \<noteq> []"
    and "\<forall>l\<in>set post. is_start l \<longrightarrow> filename_of l \<noteq> name"
    and "lines = pre @ [s1] @ body1 @ [e1] @ mid @ [s2] @ body2 @ [e2] @ post"
    and "\<forall>l\<in>set lines. CHR ''\<newline>'' \<notin> set l"
  shows "map_of (parse_claude_response (join ''\<newline>'' lines)) name = Some (join ''\<newline>'' body2)
         \<and> distinct (map fst (parse_claude_response (join ''\<newline>'' lines)))"
proof -
  have "lines \<noteq> []" using assms(11) by simp
  then have split: "split_on CHR ''\<newline>'' (join ''\<newline>'' lines) = lines"
    using assms(12) by (rule split_on_join)
  have "lines = (pre @ [s1] @ body1 @ [e1] @ mid) @ s2 # body2 @ [e2] @ post"
    using assms(11) by simp
  then have m: "map_of (files (scan lines)) name = Some (join ''\<newline>'' body2)"
    using scan_last_block [OF assms(5,6,9,7,8,10), of "pre @ [s1] @ body1 @ [e1] @ mid"]
    by (simp only:)
  then have "files (scan lines) \<noteq> []" by auto
  then have "parse_claude_response (join ''\<newline>'' lines) = files (scan lines)"
    by (simp add: parse_claude_response_def split)
  then show ?thesis using m distinct_parse [of "join ''\<newline>'' lines"] by simp
qed

lemma recorded_name_last_block_wins_example:
  "is_start ''=== FILE: a.py'' \<and> filename_of ''=== FILE: a.py'' = ''a.py'' \<and>
   marker_free [''x = 1''] \<and> marker_free [''x = 2'', ''y = 3''] \<and>
   is_end ''=== END FILE ==='' \<and> \<not> is_start ''bye'' \<and>
   map_of (parse_claude_response
     ''intro\<newline>=== FILE: a.py\<newline>x = 1\<newline>=== END FILE ===\<newline>between\<newline>=== FILE: a.py\<newline>x = 2\<newline>y = 3\<newline>=== END FILE ===\<newline>bye'')
     ''a.py'' = Some ''x = 2\<newline>y = 3''"
proof -
  have s: "is_start ''=== FILE: a.py''" and f: "filename_of ''=== FILE: a.py'' = ''a.py''"
    by (simp_all add: is_start_def startswith_def filename_of_def strip_def isspace_def)
  have b1: "marker_free [''x = 1'']" and b2: "marker_free [''x = 2'', ''y = 3'']"
    by (simp_all add: is_start_def is_end_def startswith_def)
  have e: "is_end ''=== END FILE ===''"
    by (simp add: is_end_def startswith_def)
  have n: "''a.py'' \<noteq> []" by simp
  have b: "\<not> is_start ''bye''" by (simp add: is_start_def startswith_def)
  then have p: "\<forall>l\<in>set [''bye'']. is_start l \<longrightarrow> filename_of l \<noteq> ''a.py''" by simp
  have l: "[''intro'', ''=== FILE: a.py'', ''x = 1'', ''=== END FILE ==='', ''between'',
            ''=== FILE: a.py'', ''x = 2'', ''y = 3'', ''=== END FILE ==='', ''bye'']
           = [''intro''] @ [''=== FILE: a.py''] @ [''x = 1''] @ [''=== END FILE ===''] @ [''between'']
             @ [''=== FILE: a.py''] @ [''x = 2'', ''y = 3''] @ [''=== END FILE ===''] @ [''bye'']"
    by simp
  have c: "\<forall>l\<in>set [''intro'', ''=== FILE: a.py'', ''x = 1'', ''=== END FILE ==='', ''between'',
            ''=== FILE: a.py'', ''x = 2'', ''y = 3'', ''=== END FILE ==='', ''bye''].
            CHR ''\<newline>'' \<notin> set l"
    by simp
  from recorded_name_last_block_wins [OF s f b1 e s f b2 e n p l c] s f b1 b2 e b
  show ?thesis by simp
qed

text \<open>
  C6. On two complete blocks whose start markers are written \<open>=== FILE: a.txt ===\<close>, as the
  prompt of the script prescribes, the later block does replace the earlier one, but the
  content is bound to the recorded name \<open>a.txt ===\<close>; the file name \<open>a.txt\<close> is not
  bound at all.
\<close>

theorem parse_same_name_example:
  "parse_claude_response
     ''=== FILE: a.txt ===\<newline>x = 1\<newline>=== END FILE ===\<newline>=== FILE: a.txt ===\<newline>x = 2\<newline>=== END FILE ===''
   = [(''a.txt ==='', ''x = 2'')] \<and>
   map_of (parse_claude_response
     ''=== FILE: a.txt ===\<newline>x = 1\<newline>=== END FILE ===\<newline>=== FILE: a.txt ===\<newline>x = 2\<newline>=== END FILE ==='')
     ''a.txt'' = None"
  by (simp add: parse_claude_response_def scan_def parse_line_def initial_state_def
      is_start_def is_end_def startswith_def filename_of_def strip_def isspace_def truthy_def)

text \<open>
  C7. On the three lines of the claim the parser returns one entry whose key is
  \<open>a.txt ===\<close>: removing \<open>=== FILE:\<close> and stripping leaves the closing \<open>===\<close> of the
  start marker in the recorded name.
\<close>

theorem parse_marker_example:
  "parse_claude_response ''=== FILE: a.txt ===\<newline>HELLO\<newline>=== END FILE ===''
   = [(''a.txt ==='', ''HELLO'')]"
  by (simp add: parse_claude_response_def scan_def parse_line_def initial_state_def
      is_start_def is_end_def startswith_def filename_of_def strip_def isspace_def truthy_def)

text \<open>
  C8, as the code has it. An end marker met outside a block leaves the scan as it is, so the
  committed files are those of the response without that line; the results are equal
  whenever a block is committed. When none is, the result is the default file with the
  whole stripped response, the end marker line included.
\<close>

theorem unmatched_end_marker:
  assumes "is_end e" "\<not> in_file (scan pre)" "\<forall>l\<in>set (pre @ e # post). CHR ''\<newline>'' \<notin> set l"
  shows "scan (pre @ e # post) = scan (pre @ post) \<and>
         (files (scan (pre @ post)) \<noteq> [] \<longrightarrow>
          parse_claude_response (join ''\<newline>'' (pre @ e # post))
          = parse_claude_response (join ''\<newline>'' (pre @ post))) \<and>
         (files (scan (pre @ post)) = [] \<and> strip (join ''\<newline>'' (pre @ e # post)) \<noteq> [] \<longrightarrow>
          parse_claude_response (join ''\<newline>'' (pre @ e # post))
          = [(default_target, strip (join ''\<newline>'' (pre @ e # post)))])"
proof -
  have sc: "scan (pre @ e # post) = scan (pre @ post)"
    using assms(1,2) by (rule scan_drop_end)
  have s1: "split_on CHR ''\<newline>'' (join ''\<newline>'' (pre @ e # post)) = pre @ e # post"
    using assms(3) by (intro split_on_join) simp_all
  have "parse_claude_response (join ''\<newline>'' (pre @ e # post))
          = parse_claude_response (join ''\<newline>'' (pre @ post))"
    if ne: "files (scan (pre @ post)) \<noteq> []"
  proof -
    have "pre @ post \<noteq> []" using ne by (auto simp: scan_def initial_state_def)
    then have s2: "split_on CHR ''\<newline>'' (join ''\<newline>'' (pre @ post)) = pre @ post"
      using assms(3) by (intro split_on_join) auto
    show ?thesis using ne by (simp add: parse_claude_response_def s1 s2 sc)
  qed
  moreover have "parse_claude_response (join ''\<newline>'' (pre @ e # post))
          = [(default_target, strip (join ''\<newline>'' (pre @ e # post)))]"
    if "files (scan (pre @ post)) = []" "strip (join ''\<newline>'' (pre @ e # post)) \<noteq> []"
    using that by (simp add: parse_claude_response_def s1 sc)
  ultimately show ?thesis using sc by simp
qed

theorem unmatched_end_marker_witness:
  "is_end ''=== END FILE ==='' \<and> \<not> in_file (scan []) \<and>
   files (scan ([] @ [''=== FILE: a'', ''1'', ''=== END FILE''])) \<noteq> [] \<and>
   parse_claude_response ''=== END FILE ===\<newline>=== FILE: a\<newline>1\<newline>=== END FILE''
   = parse_claude_response ''=== FILE: a\<newline>1\<newline>=== END FILE'' \<and>
   \<not> in_file (scan [''print(1)'']) \<and> files (scan ([''print(1)''] @ [])) = [] \<and>
   parse_claude_response ''print(1)\<newline>=== END FILE ===''
   = [(''voice_to_obsidian.py'', ''print(1)\<newline>=== END FILE ==='')]"
proof -
  have e: "is_end ''=== END FILE ===''"
    by (simp add: is_end_def startswith_def)
  have o: "\<not> in_file (scan [])"
    by (simp add: scan_def initial_state_def)
  have c: "\<forall>l\<in>set ([] @ ''=== END FILE ==='' # [''=== FILE: a'', ''1'', ''=== END FILE'']).
            CHR ''\<newline>'' \<notin> set l"
    by simp
  have f: "files (scan ([] @ [''=== FILE: a'', ''1'', ''=== END FILE''])) \<noteq> []"
    by (simp add: scan_def parse_line_def initial_state_def is_start_def is_end_def
        startswith_def filename_of_def strip_def isspace_def truthy_def)
  have o2: "\<not> in_file (scan [''print(1)''])" and f2: "files (scan ([''print(1)''] @ [])) = []"
    by (simp_all add: scan_def parse_line_def initial_state_def is_start_def is_end_def
        startswith_def)
  have c2: "\<forall>l\<in>set ([''print(1)''] @ ''=== END FILE ==='' # []). CHR ''\<newline>'' \<notin> set l"
    by simp
  have t2: "strip (join ''\<newline>'' ([''print(1)''] @ ''=== END FILE ==='' # []))
            = ''print(1)\<newline>=== END FILE ===''"
    by (simp add: strip_def isspace_def)
  from unmatched_end_marker [OF e o c] f
  have first: "parse_claude_response ''=== END FILE ===\<newline>=== FILE: a\<newline>1\<newline>=== END FILE''
   = parse_claude_response ''=== FILE: a\<newline>1\<newline>=== END FILE''"
    by simp
  from unmatched_end_marker [OF e o2 c2] f2 t2
  have second: "parse_claude_response ''print(1)\<newline>=== END FILE ===''
   = [(''voice_to_obsidian.py'', ''print(1)\<newline>=== END FILE ==='')]"
    by (simp add: default_target_def)
  show ?thesis using e o f first o2 f2 second by simp
qed

text \<open>
  C8 as stated fails when no block is committed: the whole response, the end marker line
  with it, becomes the content of the default file.
\<close>

theorem unmatched_end_marker_counterexample:
  "is_end ''=== END FILE ==='' \<and> \<not> in_file (scan [''hello'']) \<and>
   parse_claude_response (join ''\<newline>'' [''hello'', ''=== END FILE ===''])
   \<noteq> parse_claude_response (join ''\<newline>'' [''hello''])"
  by (simp add: parse_claude_response_def scan_def parse_line_def initial_state_def
      is_start_def is_end_def startswith_def strip_def isspace_def truthy_def default_target_def)

section \<open>Properties of numbers as text\<close>

lemma digit_cases: "d < 10 \<Longrightarrow> d \<in> {0, 1, 2, 3, 4, 5, 6, 7, 8, 9::nat}"
  by auto

lemma isdigit_digit_char: "d < 10 \<Longrightarrow> isdigit (digit_char d)"
  by (drule digit_cases) (auto simp: isdigit_def digit_char_def)

lemma value_digit_char: "d < 10 \<Longrightarrow> of_char (digit_char d) - 48 = d"
  by (drule digit_cases) (auto simp: digit_char_def)

lemma show_nat_digits: "c \<in> set (show_nat n) \<Longrightarrow> isdigit c"
proof (induction n arbitrary: c rule: show_nat.induct)
  case (1 n)
  show ?case
  proof (cases "n < 10")
    case True
    then show ?thesis using "1.prems" by (simp add: show_nat.simps [of n] isdigit_digit_char)
  next
    case False
    then show ?thesis using "1.prems" "1.IH"
      by (auto simp add: show_nat.simps [of n] isdigit_digit_char)
  qed
qed

lemma show_nat_not_Nil: "show_nat n \<noteq> []"
  by (simp add: show_nat.simps [of n])

lemma show_nat_ends:
  "isdigit (hd (show_nat n))" "isdigit (last (show_nat n))"
  by (rule show_nat_digits [of _ n], simp add: show_nat_not_Nil)+

lemma digits_value_digits:
  "\<forall>c\<in>set s. isdigit c \<Longrightarrow> s \<noteq> [] \<or> prev \<Longrightarrow> digits_value acc prev s = Some (decimal acc s)"
  by (induction s arbitrary: acc prev) (auto simp: decimal_def)

lemma decimal_show_nat: "decimal 0 (show_nat n) = n"
proof (induction n rule: show_nat.induct)
  case (1 n)
  show ?case
  proof (cases "n < 10")
    case True
    then show ?thesis by (simp add: show_nat.simps [of n] decimal_def value_digit_char)
  next
    case False
    then have "decimal 0 (show_nat n) = decimal 0 (show_nat (n div 10)) * 10 + n mod 10"
      by (simp add: show_nat.simps [of n] decimal_def value_digit_char)
    then show ?thesis using False "1.IH" by simp
  qed
qed

lemma digits_value_show_nat: "digits_value 0 False (show_nat n) = Some n"
  using digits_value_digits [of "show_nat n" False 0]
  by (simp add: show_nat_digits show_nat_not_Nil decimal_show_nat)

lemma isdigit_not_space: "isdigit c \<Longrightarrow> \<not> isspace c"
  by (auto simp: isdigit_def isspace_def)

lemma isdigit_not_int_space: "isdigit c \<Longrightarrow> \<not> int_isspace c"
  by (auto simp: isdigit_def int_isspace_def)

lemma int_strip_id:
  "s \<noteq> [] \<Longrightarrow> \<not> int_isspace (hd s) \<Longrightarrow> \<not> int_isspace (last s) \<Longrightarrow> int_strip s = s"
  by (simp add: int_strip_def dropWhile_hd hd_rev)

text \<open>Reading back a number that was written gives the number.\<close>

lemma py_int_show_int: "py_int (show_int i) = Some i"
proof (cases "i < 0")
  case True
  let ?s = "show_nat (nat (- i))"
  have "last (CHR ''-'' # ?s) = last ?s" by (simp add: show_nat_not_Nil)
  then have "\<not> int_isspace (last (CHR ''-'' # ?s))"
    by (simp add: show_nat_ends isdigit_not_int_space)
  then have "int_strip (CHR ''-'' # ?s) = CHR ''-'' # ?s"
    by (intro int_strip_id) (simp_all add: int_isspace_def)
  then show ?thesis using True
    by (simp add: py_int_def show_int_def digits_value_show_nat)
next
  case False
  let ?s = "show_nat (nat i)"
  obtain c cs where s: "?s = c # cs" using show_nat_not_Nil [of "nat i"] by (cases ?s) auto
  have c: "isdigit c" using show_nat_digits [of c "nat i"] s by simp
  have "int_strip ?s = ?s"
    by (intro int_strip_id) (simp_all add: show_nat_not_Nil show_nat_ends isdigit_not_int_space)
  moreover have "c \<noteq> CHR ''-''" "c \<noteq> CHR ''+''" using c by (auto simp: isdigit_def)
  ultimately show ?thesis using False digits_value_show_nat [of "nat i"]
    by (simp add: py_int_def show_int_def s)
qed

lemma show_int_small: "show_int 0 = ''0''" "show_int 1 = ''1''"
  by (simp_all add: show_int_def show_nat.simps digit_char_def)

lemma show_int_chars: "c \<in> set (show_int i) \<Longrightarrow> isdigit c \<or> c = CHR ''-''"
  by (auto simp: show_int_def show_nat_digits split: if_splits)

lemma show_int_last: "show_int i \<noteq> [] \<and> \<not> isspace (last (show_int i))"
  by (simp add: show_int_def show_nat_not_Nil show_nat_ends isdigit_not_space)

section \<open>Properties of the daily counter\<close>

lemma zfill_chars: "c \<in> set (zfill w s) \<Longrightarrow> c = CHR ''0'' \<or> c \<in> set s"
  by (auto simp: zfill_def)

lemma zfill_show_nat_digits: "c \<in> set (zfill w (show_nat n)) \<Longrightarrow> isdigit c"
proof -
  assume "c \<in> set (zfill w (show_nat n))"
  then consider "c = CHR ''0''" | "c \<in> set (show_nat n)" using zfill_chars by blast
  then show ?thesis
  proof cases
    case 1
    then show ?thesis by (simp add: isdigit_def)
  next
    case 2
    then show ?thesis by (rule show_nat_digits)
  qed
qed

lemma strftime_Ymd_chars: "c \<in> set (strftime_Ymd now) \<Longrightarrow> isdigit c \<or> c = CHR ''-''"
  by (auto simp: strftime_Ymd_def dest: zfill_show_nat_digits)

lemma strftime_Ymd_hd: "strftime_Ymd now \<noteq> [] \<and> \<not> isspace (hd (strftime_Ymd now))"
proof -
  have ne: "strftime_Ymd now \<noteq> []" by (simp add: strftime_Ymd_def)
  then have "hd (strftime_Ymd now) \<in> set (strftime_Ymd now)" by simp
  then have "isdigit (hd (strftime_Ymd now)) \<or> hd (strftime_Ymd now) = CHR ''-''"
    by (rule strftime_Ymd_chars)
  then show ?thesis using ne by (auto simp: isdigit_def isspace_def)
qed

text \<open>A record as the program writes it is read back as its date and its count.\<close>

lemma record_parse:
  "split_on CHR '','' (strip (strftime_Ymd d @ CHR '','' # show_int c))
   = [strftime_Ymd d, show_int c]"
proof -
  let ?r = "strftime_Ymd d @ CHR '','' # show_int c"
  have "hd ?r = hd (strftime_Ymd d)" "last ?r = last (show_int c)"
    using strftime_Ymd_hd [of d] show_int_last [of c] by simp_all
  then have "strip ?r = ?r"
    using strftime_Ymd_hd [of d] show_int_last [of c] by (intro strip_id) simp_all
  moreover have "CHR '','' \<notin> set (strftime_Ymd d)"
    using strftime_Ymd_chars [of "CHR '',''" d] by (auto simp: isdigit_def)
  moreover have "CHR '','' \<notin> set (show_int c)"
    using show_int_chars [of "CHR '',''" c] by (auto simp: isdigit_def)
  ultimately show ?thesis
    by (simp add: split_on_append split_on_no_sep)
qed

lemma same_date_Ymd: "same_date t now \<Longrightarrow> strftime_Ymd t = strftime_Ymd now"
  by (simp add: same_date_def strftime_Ymd_def)

lemma increment_today:
  "increment_daily_count now (Some (strftime_Ymd now @ '','' @ show_int c))
   = Inr (Some (strftime_Ymd now @ '','' @ show_int (c + 1)))"
  by (simp add: increment_daily_count_def record_parse py_int_show_int)

lemma increment_stale:
  "strftime_Ymd stored \<noteq> strftime_Ymd now \<Longrightarrow>
   increment_daily_count now (Some (strftime_Ymd stored @ '','' @ show_int c))
   = Inr (Some (strftime_Ymd now @ '','' @ show_int 1))"
  by (simp add: increment_daily_count_def record_parse)

lemma increment_absent:
  "increment_daily_count now None = Inr (Some (strftime_Ymd now @ '','' @ show_int 1))"
  by (simp add: increment_daily_count_def)

lemma increment_each_today:
  "\<forall>t\<in>set nows. same_date t now \<Longrightarrow>
   increment_each nows (Some (strftime_Ymd now @ '','' @ show_int c))
   = Inr (Some (strftime_Ymd now @ '','' @ show_int (c + int (length nows))))"
proof (induction nows arbitrary: c)
  case Nil
  then show ?case by simp
next
  case (Cons t nows)
  have t: "strftime_Ymd t = strftime_Ymd now" using Cons.prems by (simp add: same_date_Ymd)
  have "increment_daily_count t (Some (strftime_Ymd now @ '','' @ show_int c))
        = Inr (Some (strftime_Ymd now @ '','' @ show_int (c + 1)))"
    using increment_today [of t c] by (simp add: t)
  then show ?case using Cons.IH [of "c + 1"] Cons.prems by (simp add: add.assoc)
qed

text \<open>
  C1, as the code has it. A check on a record of another date rewrites the record to
  today's date with the count 0 and answers that the limit is not reached.
\<close>

theorem check_daily_limit_stale:
  "strftime_Ymd stored \<noteq> strftime_Ymd now \<Longrightarrow>
   check_daily_limit now (Some (strftime_Ymd stored @ '','' @ show_int c))
   = Inr (True, Some (strftime_Ymd now @ '',0''))"
  by (simp add: check_daily_limit_def record_parse)

theorem check_daily_limit_stale_witness:
  "strftime_Ymd \<lparr>year = 2025, month = 12, day = 31, hour = 23, minute = 59\<rparr>
   \<noteq> strftime_Ymd \<lparr>year = 2026, month = 1, day = 1, hour = 0, minute = 1\<rparr> \<and>
   check_daily_limit \<lparr>year = 2026, month = 1, day = 1, hour = 0, minute = 1\<rparr>
     (Some ''2025-12-31,100'') = Inr (True, Some ''2026-01-01,0'')"
  using check_daily_limit_stale [of "\<lparr>year = 2025, month = 12, day = 31, hour = 23, minute = 59\<rparr>"
      "\<lparr>year = 2026, month = 1, day = 1, hour = 0, minute = 1\<rparr>" 100]
  by (simp add: strftime_Ymd_def zfill_def show_int_def show_nat.simps digit_char_def)

text \<open>
  C1 as stated fails: the check of 2 January 2024 on the record of 1 January with count 5
  leaves the record of 2 January with count 0.
\<close>

theorem check_daily_limit_rewrites_counterexample:
  "check_daily_limit \<lparr>year = 2024, month = 1, day = 2, hour = 8, minute = 30\<rparr>
     (Some ''2024-01-01,5'') = Inr (True, Some ''2024-01-02,0'') \<and>
   Some ''2024-01-02,0'' \<noteq> Some ''2024-01-01,5''"
  by (simp add: check_daily_limit_def strftime_Ymd_def zfill_def show_nat.simps digit_char_def
      strip_def isspace_def)

text \<open>
  C5. From the record of today with count 0, calls at \<open>n\<close> clock readings of the same day
  leave the record of today with count \<open>n\<close>, and so do \<open>n \<ge> 1\<close> calls from an absent
  record. One call on a record of today adds one to its count; one call on a record of
  another date leaves the record of today with count 1.
\<close>

theorem increment_daily_count_counts:
  "((\<forall>t\<in>set nows. same_date t now) \<longrightarrow>
      increment_each nows (Some (strftime_Ymd now @ '',0''))
        = Inr (Some (strftime_Ymd now @ '','' @ show_int (int (length nows)))) \<and>
      (nows \<noteq> [] \<longrightarrow>
       increment_each nows None
        = Inr (Some (strftime_Ymd now @ '','' @ show_int (int (length nows)))))) \<and>
   increment_daily_count now (Some (strftime_Ymd now @ '','' @ show_int c))
     = Inr (Some (strftime_Ymd now @ '','' @ show_int (c + 1))) \<and>
   (strftime_Ymd stored \<noteq> strftime_Ymd now \<longrightarrow>
    increment_daily_count now (Some (strftime_Ymd stored @ '','' @ show_int c))
     = Inr (Some (strftime_Ymd now @ '',1'')))"
proof (intro conjI impI)
  assume a: "\<forall>t\<in>set nows. same_date t now"
  show "increment_each nows (Some (strftime_Ymd now @ '',0''))
       = Inr (Some (strftime_Ymd now @ '','' @ show_int (int (length nows))))"
    using increment_each_today [OF a, of 0] by (simp add: show_int_small)
  assume "nows \<noteq> []"
  then obtain t ts where n: "nows = t # ts" by (cases nows) auto
  have t: "strftime_Ymd t = strftime_Ymd now" using a n by (simp add: same_date_Ymd)
  have ts: "\<forall>t\<in>set ts. same_date t now" using a n by simp
  show "increment_each nows None
       = Inr (Some (strftime_Ymd now @ '','' @ show_int (int (length nows))))"
    using increment_each_today [OF ts, of 1] increment_absent [of t]
    by (simp add: n t)
next
  show "increment_daily_count now (Some (strftime_Ymd now @ '','' @ show_int c))
       = Inr (Some (strftime_Ymd now @ '','' @ show_int (c + 1)))"
    by (rule increment_today)
next
  assume "strftime_Ymd stored \<noteq> strftime_Ymd now"
  then show "increment_daily_count now (Some (strftime_Ymd stored @ '','' @ show_int c))
       = Inr (Some (strftime_Ymd now @ '',1''))"
    using increment_stale [of stored now c] by (simp add: show_int_small)
qed

theorem increment_daily_count_counts_witness:
  "same_date \<lparr>year = 2024, month = 1, day = 2, hour = 9, minute = 0\<rparr>
             \<lparr>year = 2024, month = 1, day = 2, hour = 8, minute = 30\<rparr> \<and>
   same_date \<lparr>year = 2024, month = 1, day = 2, hour = 17, minute = 45\<rparr>
             \<lparr>year = 2024, month = 1, day = 2, hour = 8, minute = 30\<rparr> \<and>
   strftime_Ymd \<lparr>year = 2024, month = 1, day = 1, hour = 8, minute = 30\<rparr>
   \<noteq> strftime_Ymd \<lparr>year = 2024, month = 1, day = 2, hour = 8, minute = 30\<rparr> \<and>
   increment_each [\<lparr>year = 2024, month = 1, day = 2, hour = 8, minute = 30\<rparr>,
                   \<lparr>year = 2024, month = 1, day = 2, hour = 9, minute = 0\<rparr>,
                   \<lparr>year = 2024, month = 1, day = 2, hour = 17, minute = 45\<rparr>] None
   = Inr (Some ''2024-01-02,3'') \<and>
   increment_daily_count \<lparr>year = 2024, month = 1, day = 2, hour = 8, minute = 30\<rparr>
     (Some ''2024-01-02,7'') = Inr (Some ''2024-01-02,8'') \<and>
   increment_daily_count \<lparr>year = 2024, month = 1, day = 2, hour = 8, minute = 30\<rparr>
     (Some ''2024-01-01,7'') = Inr (Some ''2024-01-02,1'')"
proof -
  let ?t1 = "\<lparr>year = 2024, month = 1, day = 2, hour = 8, minute = 30\<rparr>"
  let ?t2 = "\<lparr>year = 2024, month = 1, day = 2, hour = 9, minute = 0\<rparr>"
  let ?t3 = "\<lparr>year = 2024, month = 1, day = 2, hour = 17, minute = 45\<rparr>"
  let ?old = "\<lparr>year = 2024, month = 1, day = 1, hour = 8, minute = 30\<rparr>"
  have today: "strftime_Ymd ?t1 = ''2024-01-02''" and before: "strftime_Ymd ?old = ''2024-01-01''"
    by (simp_all add: strftime_Ymd_def zfill_def show_nat.simps digit_char_def)
  have numbers: "show_int (int (length [?t1, ?t2, ?t3])) = ''3''" "show_int 7 = ''7''"
    "show_int (7 + 1) = ''8''"
    by (simp_all add: show_int_def show_nat.simps digit_char_def)
  have same: "same_date ?t2 ?t1" "same_date ?t3 ?t1"
    by (simp_all add: same_date_def)
  then have all: "\<forall>t\<in>set [?t1, ?t2, ?t3]. same_date t ?t1"
    by (simp add: same_date_def)
  have differ: "strftime_Ymd ?old \<noteq> strftime_Ymd ?t1"
    unfolding today before by simp
  note counts = increment_daily_count_counts [of "[?t1, ?t2, ?t3]" ?t1 7 ?old,
      unfolded today before numbers]
  show ?thesis using counts all same differ by simp
qed

section \<open>Properties of the note writer and of the validity filter\<close>

lemma save_to_obsidian_vault:
  "fst (save_to_obsidian now note fs)
   = fs(note_file now \<mapsto> note_start fs now @ section_text now note)"
  by (simp add: save_to_obsidian_def section_text_def note_start_def split: option.splits)

text \<open>
  C9. A call writes one file, the daily note of its date: the content the note had, or the
  top-level date heading when there was no note, followed by the subheading with the time
  and the text. After the notes \<open>a\<close> and \<open>b\<close> of the same date the file holds what it
  held before, then the section of \<open>a\<close>, then the section of \<open>b\<close>; every other file
  of the vault is as it was.
\<close>

theorem save_twice_same_date:
  assumes "same_date t1 t2"
  shows "fst (save_to_obsidian t1 a fs) = fs(note_file t1 \<mapsto> note_start fs t1 @ section_text t1 a) \<and>
         fst (save_to_obsidian t2 b (fst (save_to_obsidian t1 a fs)))
         = fs(note_file t1 \<mapsto> note_start fs t1 @ section_text t1 a @ section_text t2 b)"
proof -
  have f: "note_file t2 = note_file t1"
    using assms(1) by (simp add: note_file_def same_date_Ymd)
  show ?thesis
    by (simp add: save_to_obsidian_vault f note_start_def)
qed

theorem save_twice_same_date_witness:
  "same_date \<lparr>year = 2024, month = 1, day = 2, hour = 9, minute = 5\<rparr>
             \<lparr>year = 2024, month = 1, day = 2, hour = 15, minute = 45\<rparr> \<and>
   fst (save_to_obsidian \<lparr>year = 2024, month = 1, day = 2, hour = 15, minute = 45\<rparr> ''B''
     (fst (save_to_obsidian \<lparr>year = 2024, month = 1, day = 2, hour = 9, minute = 5\<rparr> ''A'' Map.empty)))
   = [''2024-01-02.md'' \<mapsto>
      ''# January 02, 2024\<newline>\<newline>## 09:05 AM\<newline>\<newline>A\<newline>\<newline>## 03:45 PM\<newline>\<newline>B'']"
proof -
  let ?t1 = "\<lparr>year = 2024, month = 1, day = 2, hour = 9, minute = 5\<rparr>"
  let ?t2 = "\<lparr>year = 2024, month = 1, day = 2, hour = 15, minute = 45\<rparr>"
  have same: "same_date ?t1 ?t2" by (simp add: same_date_def)
  have parts: "note_file ?t1 = ''2024-01-02.md''"
    "note_start Map.empty ?t1 = ''# January 02, 2024''"
    "section_text ?t1 ''A'' = ''\<newline>\<newline>## 09:05 AM\<newline>\<newline>A''"
    "section_text ?t2 ''B'' = ''\<newline>\<newline>## 03:45 PM\<newline>\<newline>B''"
    by (simp_all add: note_file_def note_start_def section_text_def strftime_Ymd_def
        strftime_IMp_def strftime_BdY_def month_name_def zfill_def show_nat.simps digit_char_def)
  note both = save_twice_same_date [OF same, of "''A''" Map.empty "''B''", THEN conjunct2,
      unfolded parts]
  show ?thesis using both same by simp
qed

text \<open>
  C4. The filter accepts a text exactly when it has at least 10 characters and at least 5
  whitespace-separated words. It prints the warning exactly for the accepted texts of more
  than 5000 characters; its result is the verdict alone, the text is not changed.
\<close>

theorem is_valid_transcription_result:
  "fst (is_valid_transcription t) = (10 \<le> length t \<and> 5 \<le> length (split_ws t)) \<and>
   snd (is_valid_transcription t)
   = (if 10 \<le> length t \<and> 5 \<le> length (split_ws t) \<and> 5000 < length t
      then [Text_too_long (length t) 5000] else [])"
  by (auto simp: is_valid_transcription_def MIN_WORDS_def MAX_CHARS_def Let_def)

section \<open>Properties of the webhook handler\<close>

lemma trigger_workflow_sent:
  assumes "trigger_workflow post env issue_data = (out, sent, printed)"
  shows "\<exists>q. sent = [q] \<and>
           (case post q of
              Inl e \<Rightarrow> out = Raised e
            | Inr r \<Rightarrow>
                status_of out = Some (if status_code r = 204 then 200 else 500) \<and>
                (status_code r \<noteq> 204 \<longrightarrow>
                 out = Response (JObj [(''error'', JStr ''Failed to trigger workflow''),
                                       (''details'', JStr (body_text r))]) 500))"
  using assms by (auto simp: trigger_workflow_def Let_def split: sum.splits if_splits)

lemma handle_event_sent:
  assumes "handle_event post env req = (out, sent, printed)" "sent \<noteq> []"
  shows "\<exists>issue_data. trigger_workflow post env issue_data = (out, sent, printed)"
  using assms
  by (auto simp: handle_event_def ignored_def raised_def split: sum.splits if_splits)

lemma linear_webhook_sent:
  assumes "linear_webhook post env req = (out, sent, printed)" "sent \<noteq> []"
  shows "handle_event post env req = (out, sent, printed)"
  using assms
  by (auto simp: linear_webhook_def Let_def raised_def split: sum.splits if_splits)

lemma trigger_workflow_status:
  "status_of (fst (trigger_workflow post env issue_data)) \<noteq> Some 401"
  by (simp add: trigger_workflow_def Let_def split: sum.splits)

lemma handle_event_status: "status_of (fst (handle_event post env req)) \<noteq> Some 401"
  by (simp add: handle_event_def ignored_def raised_def trigger_workflow_status split: sum.splits)

lemma hex_cases: "k < 16 \<Longrightarrow> k \<in> {0, 1, 2, 3, 4, 5, 6, 7, 8, 9, 10, 11, 12, 13, 14, 15::nat}"
  by simp arith

lemma hex_char_ascii: "k < 16 \<Longrightarrow> (of_char (''0123456789abcdef'' ! k) :: nat) < 128"
  by (drule hex_cases) auto

lemma isascii_hexdigest: "isascii (hexdigest bs)"
proof -
  have "unat b div 16 < 16" for b :: byte
    using unsigned_less [of b, where ?'a = nat] by simp
  then show ?thesis
    by (induction bs) (simp_all add: isascii_def hexdigest_def hex_char_ascii)
qed

text \<open>The hash function on the example \<open>abc\<close> of FIPS 180-4.\<close>

lemma sha256_abc:
  "hexdigest (sha256 (encode ''abc''))
   = ''ba7816bf8f01cfea414140de5dae2223b00361a396177a9cb410ff61f20015ad''"
  by code_simp

lemma length_hexdigest: "length (hexdigest bs) = 2 * length bs"
  by (induction bs) (simp_all add: hexdigest_def)

lemma length_sha256_out: "length (sha256_out st) = 32"
  by (induction st rule: sha256_out.induct) (simp add: word_bytes_def)

lemma length_sha256: "length (sha256 m) = 32"
  by (simp add: sha256_def length_sha256_out)

lemma length_hmac_hexdigest: "length (hexdigest (hmac_sha256 k m)) = 64"
  by (simp add: length_hexdigest hmac_sha256_def Let_def length_sha256)

text \<open>
  C2, as the code has it. When the handler calls the dispatch endpoint it calls it once,
  whatever the answer. A remote status 204 gives the local status 200, every other remote
  status gives 500 with the text of the remote response in the body, and a call that
  raises is not caught.
\<close>

theorem dispatch_status:
  assumes "linear_webhook post env req = (out, sent, printed)" and "sent \<noteq> []"
  shows "\<exists>q. sent = [q] \<and>
           (case post q of
              Inl e \<Rightarrow> out = Raised e
            | Inr r \<Rightarrow>
                status_of out = Some (if status_code r = 204 then 200 else 500) \<and>
                (status_code r \<noteq> 204 \<longrightarrow>
                 out = Response (JObj [(''error'', JStr ''Failed to trigger workflow''),
                                       (''details'', JStr (body_text r))]) 500))"
proof -
  have "handle_event post env req = (out, sent, printed)"
    using assms by (rule linear_webhook_sent)
  then obtain issue_data where "trigger_workflow post env issue_data = (out, sent, printed)"
    using assms(2) handle_event_sent by blast
  then show ?thesis by (rule trigger_workflow_sent)
qed

theorem dispatch_status_witness:
  "status_of (fst (linear_webhook (always_respond \<lparr>status_code = 204, body_text = []\<rparr>)
     \<lparr>LINEAR_WEBHOOK_SECRET = None, GITHUB_TOKEN = Some ''t''\<rparr>
     \<lparr>linear_signature = None, request_data = [],
      request_json = Inr (JObj [(''type'', JStr ''Issue''), (''action'', JStr ''update''),
        (''data'', JObj [(''id'', JStr ''i1''), (''identifier'', JStr ''PROJ-1''),
           (''labels'', JArr [JObj [(''name'', JStr ''ai-development'')]])])])\<rparr>)) = Some 200 \<and>
   length (fst (snd (linear_webhook (always_respond \<lparr>status_code = 204, body_text = []\<rparr>)
     \<lparr>LINEAR_WEBHOOK_SECRET = None, GITHUB_TOKEN = Some ''t''\<rparr>
     \<lparr>linear_signature = None, request_data = [],
      request_json = Inr (JObj [(''type'', JStr ''Issue''), (''action'', JStr ''update''),
        (''data'', JObj [(''id'', JStr ''i1''), (''identifier'', JStr ''PROJ-1''),
           (''labels'', JArr [JObj [(''name'', JStr ''ai-development'')]])])])\<rparr>))) = 1 \<and>
   fst (linear_webhook (always_respond \<lparr>status_code = 503, body_text = ''Service Unavailable''\<rparr>)
     \<lparr>LINEAR_WEBHOOK_SECRET = None, GITHUB_TOKEN = Some ''t''\<rparr>
     \<lparr>linear_signature = None, request_data = [],
      request_json = Inr (JObj [(''type'', JStr ''Issue''), (''action'', JStr ''update''),
        (''data'', JObj [(''id'', JStr ''i1''), (''identifier'', JStr ''PROJ-1''),
           (''labels'', JArr [JObj [(''name'', JStr ''ai-development'')]])])])\<rparr>)
   = Response (JObj [(''error'', JStr ''Failed to trigger workflow''),
                     (''details'', JStr ''Service Unavailable'')]) 500"
proof -
  let ?post = "always_respond \<lparr>status_code = 204, body_text = []\<rparr>"
  let ?down = "always_respond \<lparr>status_code = 503, body_text = ''Service Unavailable''\<rparr>"
  let ?env = "\<lparr>LINEAR_WEBHOOK_SECRET = None, GITHUB_TOKEN = Some ''t''\<rparr>"
  let ?req = "\<lparr>linear_signature = None, request_data = [],
      request_json = Inr (JObj [(''type'', JStr ''Issue''), (''action'', JStr ''update''),
        (''data'', JObj [(''id'', JStr ''i1''), (''identifier'', JStr ''PROJ-1''),
           (''labels'', JArr [JObj [(''name'', JStr ''ai-development'')]])])])\<rparr>"
  obtain out sent printed where e: "linear_webhook ?post ?env ?req = (out, sent, printed)"
    by (cases "linear_webhook ?post ?env ?req") auto
  have "sent \<noteq> []"
    using e by (auto simp add: linear_webhook_def handle_event_def trigger_workflow_def truthy_def
        dict_get_def iterate_def TARGET_LABEL_def always_respond_def Let_def)
  from dispatch_status [OF e this]
  have first: "status_of (fst (linear_webhook ?post ?env ?req)) = Some 200 \<and>
               length (fst (snd (linear_webhook ?post ?env ?req))) = 1"
    by (auto simp: e always_respond_def)
  obtain out' sent' printed' where e': "linear_webhook ?down ?env ?req = (out', sent', printed')"
    by (cases "linear_webhook ?down ?env ?req") auto
  have "sent' \<noteq> []"
    using e' by (auto simp add: linear_webhook_def handle_event_def trigger_workflow_def truthy_def
        dict_get_def iterate_def TARGET_LABEL_def always_respond_def Let_def)
  from dispatch_status [OF e' this]
  have second: "fst (linear_webhook ?down ?env ?req)
     = Response (JObj [(''error'', JStr ''Failed to trigger workflow''),
                       (''details'', JStr ''Service Unavailable'')]) 500"
    by (auto simp: e' always_respond_def)
  show ?thesis using first second by simp
qed

text \<open>
  C2 as stated fails: the dispatch endpoint answers 404 and the sender of the webhook
  receives 500, after one dispatch request.
\<close>

theorem dispatch_status_counterexample:
  "linear_webhook (always_respond \<lparr>status_code = 404, body_text = ''Not Found''\<rparr>)
     \<lparr>LINEAR_WEBHOOK_SECRET = None, GITHUB_TOKEN = Some ''t''\<rparr>
     \<lparr>linear_signature = None, request_data = [],
      request_json = Inr (JObj [(''type'', JStr ''Issue''), (''action'', JStr ''update''),
        (''data'', JObj [(''id'', JStr ''i1''), (''identifier'', JStr ''PROJ-1''),
           (''labels'', JArr [JObj [(''name'', JStr ''ai-development'')]])])])\<rparr>
   = (Response (JObj [(''error'', JStr ''Failed to trigger workflow''),
                      (''details'', JStr ''Not Found'')]) 500,
      [\<lparr>url = ''https://api.github.com/repos/brennaman/voice-to-obsidian/dispatches'',
        headers = [(''Accept'', ''application/vnd.github+json''),
                   (''Authorization'', ''Bearer t''),
                   (''X-GitHub-Api-Version'', ''2022-11-28'')],
        payload = JObj [(''event_type'', JStr ''linear_issue_labeled''),
                        (''client_payload'',
                         JObj [(''issue_id'', JStr ''i1''),
                               (''issue_title'', JNull),
                               (''issue_description'', JStr []),
                               (''issue_identifier'', JStr ''PROJ-1'')])]\<rparr>],
      [Triggering (JStr ''PROJ-1''), Workflow_failed 404])"
  by (simp add: linear_webhook_def handle_event_def trigger_workflow_def truthy_def dict_get_def
      iterate_def issue_field_def TARGET_LABEL_def GITHUB_REPO_def always_respond_def Let_def)

text \<open>
  C10, as the code has it. The reply 401 is given exactly when the secret is set and not
  empty, the signature header is present and not empty, the signature is ASCII and it
  differs from the hexadecimal HMAC-SHA256 digest of the raw body. With no signature
  header, or an empty one, the request is handled with no verification, whatever the secret.
\<close>

theorem invalid_signature_iff:
  "(status_of (fst (linear_webhook post env req)) = Some 401) =
     (case (LINEAR_WEBHOOK_SECRET env, linear_signature req) of
        (Some secret, Some signature) \<Rightarrow>
          secret \<noteq> [] \<and> signature \<noteq> [] \<and> isascii signature \<and>
          signature \<noteq> hexdigest (hmac_sha256 (encode secret) (request_data req))
      | _ \<Rightarrow> False) \<and>
   (\<not> truthy (linear_signature req) \<longrightarrow>
    linear_webhook post env req = handle_event post env req)"
  by (auto simp: linear_webhook_def Let_def truthy_def verify_linear_signature_def
      compare_digest_def isascii_hexdigest raised_def handle_event_status
      split: option.splits)

theorem invalid_signature_iff_witness:
  "\<not> truthy (linear_signature \<lparr>linear_signature = None, request_data = [],
                                   request_json = Inr (JObj [])\<rparr>) \<and>
   linear_webhook (always_respond \<lparr>status_code = 204, body_text = []\<rparr>)
     \<lparr>LINEAR_WEBHOOK_SECRET = Some ''s3cret'', GITHUB_TOKEN = Some ''t''\<rparr>
     \<lparr>linear_signature = None, request_data = [], request_json = Inr (JObj [])\<rparr>
   = handle_event (always_respond \<lparr>status_code = 204, body_text = []\<rparr>)
     \<lparr>LINEAR_WEBHOOK_SECRET = Some ''s3cret'', GITHUB_TOKEN = Some ''t''\<rparr>
     \<lparr>linear_signature = None, request_data = [], request_json = Inr (JObj [])\<rparr>"
  using invalid_signature_iff [of "always_respond \<lparr>status_code = 204, body_text = []\<rparr>"
      "\<lparr>LINEAR_WEBHOOK_SECRET = Some ''s3cret'', GITHUB_TOKEN = Some ''t''\<rparr>"
      "\<lparr>linear_signature = None, request_data = [], request_json = Inr (JObj [])\<rparr>"]
  by (simp add: truthy_def)

text \<open>
  C10 as stated fails in two ways. With the secret set, a signature header that is present
  but empty differs from the digest, and the request is handled (here ignored, with status
  200); a signature with a character outside ASCII differs from the digest as well, and the
  comparison raises a TypeError instead of the reply 401.
\<close>

theorem invalid_signature_counterexample:
  "hexdigest (hmac_sha256 (encode ''s3cret'') []) \<noteq> [] \<and>
   status_of (fst (linear_webhook (always_respond \<lparr>status_code = 204, body_text = []\<rparr>)
     \<lparr>LINEAR_WEBHOOK_SECRET = Some ''s3cret'', GITHUB_TOKEN = Some ''t''\<rparr>
     \<lparr>linear_signature = Some [], request_data = [], request_json = Inr (JObj [])\<rparr>))
   = Some 200 \<and>
   hexdigest (hmac_sha256 (encode ''s3cret'') []) \<noteq> [CHR 0xE9] \<and>
   fst (linear_webhook (always_respond \<lparr>status_code = 204, body_text = []\<rparr>)
     \<lparr>LINEAR_WEBHOOK_SECRET = Some ''s3cret'', GITHUB_TOKEN = Some ''t''\<rparr>
     \<lparr>linear_signature = Some [CHR 0xE9], request_data = [], request_json = Inr (JObj [])\<rparr>)
   = Raised TypeError"
proof -
  have "length (hexdigest (hmac_sha256 (encode ''s3cret'') [])) = 64"
    by (rule length_hmac_hexdigest)
  then have "hexdigest (hmac_sha256 (encode ''s3cret'') []) \<noteq> []"
    and "hexdigest (hmac_sha256 (encode ''s3cret'') []) \<noteq> [CHR 0xE9]"
    by auto
  moreover have "status_of (fst (linear_webhook (always_respond \<lparr>status_code = 204, body_text = []\<rparr>)
     \<lparr>LINEAR_WEBHOOK_SECRET = Some ''s3cret'', GITHUB_TOKEN = Some ''t''\<rparr>
     \<lparr>linear_signature = Some [], request_data = [], request_json = Inr (JObj [])\<rparr>))
   = Some 200"
    by (simp add: linear_webhook_def truthy_def handle_event_def dict_get_def ignored_def)
  moreover have "fst (linear_webhook (always_respond \<lparr>status_code = 204, body_text = []\<rparr>)
     \<lparr>LINEAR_WEBHOOK_SECRET = Some ''s3cret'', GITHUB_TOKEN = Some ''t''\<rparr>
     \<lparr>linear_signature = Some [CHR 0xE9], request_data = [], request_json = Inr (JObj [])\<rparr>)
   = Raised TypeError"
    by (simp add: linear_webhook_def truthy_def verify_linear_signature_def compare_digest_def
        isascii_def raised_def)
  ultimately show ?thesis by simp
qed

end
